theory Spec2Isabelle
  imports Main "HOL-Library.Word"
begin

section \<open>Data model of \<open>src/app/page.tsx\<close>\<close>

text \<open>
  The page is one React component, \<open>Home\<close>, with four pieces of component state, one
  asynchronous submit handler, two input handlers and an inline clear handler. The model
  keeps the component state in a record, turns every state setter call of a handler into
  an effect that is applied in program order, and splits the asynchronous handler at its
  two \<open>await\<close>s.
\<close>

type_synonym byte = "8 word"

text \<open>
  Values that a rejected promise can carry into \<open>catch (error)\<close>: the primitives
  \<open>undefined\<close>, \<open>null\<close> and a string, an \<open>Error\<close> object with its \<open>name\<close> and
  \<open>message\<close>, and a value that has no conversion to a string (a \<open>Symbol\<close>, or an
  object without \<open>toString\<close>).
\<close>

datatype js_value =
    JSUndefined
  | JSNull
  | JSString string
  | JSError string string
  | JSSymbol

text \<open>
  The template literal \<open>`${error}`\<close> of line 60: ECMAScript \<open>ToString\<close>, which for an
  \<open>Error\<close> object is \<open>Error.prototype.toString\<close> (the message alone when the name is
  empty, the name alone when the message is empty, otherwise both with a colon). For a
  value with no conversion to a string it throws a \<open>TypeError\<close>: that is \<open>None\<close>.
\<close>

fun template_string :: "js_value \<Rightarrow> string option" where
  "template_string JSUndefined = Some ''undefined''"
| "template_string JSNull = Some ''null''"
| "template_string (JSString s) = Some s"
| "template_string (JSError n m) =
     Some (if n = [] then m else if m = [] then n else n @ '': '' @ m)"
| "template_string JSSymbol = None"

text \<open>
  A browser \<open>File\<close>: the fields the page reads (\<open>name\<close>, \<open>type\<close>) and what the promise
  of \<open>arrayBuffer()\<close> settles with, the bytes of the file or a rejection.
\<close>

record File =
  name :: string
  type :: string
  arrayBuffer :: "js_value + byte list"

text \<open>\<open>interface FormData\<close>, lines 24 to 27.\<close>

record FormData =
  file' :: "File option"
  prompt :: string

text \<open>
  \<open>MessageData\<close> is declared in \<open>./vertex\<close>; its shape is the object literal of lines
  50 to 56. Its fields are prefixed where a record above already has the name; the
  field \<open>file\<close> of \<open>FormData\<close> is primed because \<open>file\<close> is a keyword.
\<close>

record MessageFile =
  contents :: string
  m_type :: string

record MessageData =
  m_file :: MessageFile
  m_prompt :: string

text \<open>The four \<open>useState\<close> cells of lines 30 to 36.\<close>

record Home_state =
  response :: "string option"
  error :: "string option"
  loading :: bool
  formData :: FormData

definition initial_state :: Home_state where
  "initial_state =
     \<lparr>response = None, error = None, loading = False,
      formData = \<lparr>file' = None, prompt = ''''\<rparr>\<rparr>"

subsection \<open>Base64\<close>

text \<open>
  \<open>Buffer.from(bytes).toString("base64")\<close> of lines 47 to 49 is a call into the
  \<open>Buffer\<close> library, whose \<open>base64\<close> is the encoding of RFC 4648 with padding: three
  bytes become four characters of the alphabet below; a last group of one or two bytes
  becomes two or three characters followed by \<open>=\<close> signs.
\<close>

definition base64_alphabet :: string where
  "base64_alphabet =
     ''ABCDEFGHIJKLMNOPQRSTUVWXYZabcdefghijklmnopqrstuvwxyz0123456789+/''"

definition base64_char :: "nat \<Rightarrow> char" where
  "base64_char i = base64_alphabet ! (i mod 64)"

fun base64_encode :: "byte list \<Rightarrow> string" where
  "base64_encode [] = []"
| "base64_encode [a] =
     [base64_char (unat a div 4),
      base64_char ((unat a mod 4) * 16),
      CHR ''='', CHR ''='']"
| "base64_encode [a, b] =
     [base64_char (unat a div 4),
      base64_char ((unat a mod 4) * 16 + unat b div 16),
      base64_char ((unat b mod 16) * 4),
      CHR ''='']"
| "base64_encode (a # b # c # bs) =
     [base64_char (unat a div 4),
      base64_char ((unat a mod 4) * 16 + unat b div 16),
      base64_char ((unat b mod 16) * 4 + unat c div 64),
      base64_char (unat c mod 64)] @ base64_encode bs"

text \<open>
  The page never decodes. The round trip of the specification is stated against the
  decoder of RFC 4648, which a receiver of the payload applies: four characters at a
  time, each looked up in the alphabet, with \<open>=\<close> accepted only at the end of the last
  group. Any other text is rejected.
\<close>

definition base64_value :: "char \<Rightarrow> nat option" where
  "base64_value c = map_of (zip base64_alphabet [0..<64]) c"

fun base64_decode :: "string \<Rightarrow> byte list option" where
  "base64_decode [] = Some []"
| "base64_decode (c0 # c1 # c2 # c3 # cs) =
     (if cs = [] \<and> c3 = CHR ''='' then
        (if c2 = CHR ''='' then
           (case (base64_value c0, base64_value c1) of
              (Some i0, Some i1) \<Rightarrow> Some [of_nat (i0 * 4 + i1 div 16)]
            | _ \<Rightarrow> None)
         else
           (case (base64_value c0, base64_value c1, base64_value c2) of
              (Some i0, Some i1, Some i2) \<Rightarrow>
                Some [of_nat (i0 * 4 + i1 div 16), of_nat ((i1 mod 16) * 16 + i2 div 4)]
            | _ \<Rightarrow> None))
      else
        (case (base64_value c0, base64_value c1, base64_value c2, base64_value c3) of
           (Some i0, Some i1, Some i2, Some i3) \<Rightarrow>
             (case base64_decode cs of
                Some bs \<Rightarrow>
                  Some (of_nat (i0 * 4 + i1 div 16) #
                        of_nat ((i1 mod 16) * 16 + i2 div 4) #
                        of_nat ((i2 mod 4) * 64 + i3) # bs)
              | None \<Rightarrow> None)
         | _ \<Rightarrow> None))"
| "base64_decode _ = None"

section \<open>The submit handler\<close>

text \<open>
  What a handler does to the outside: a call of one of the four state setters, or the
  call \<open>sendMessage(f)\<close> of line 57. A handler is modelled by the list of its effects
  in program order.
\<close>

datatype effect =
    SetResponse "string option"
  | SetError "string option"
  | SetLoading bool
  | SetFormData FormData
  | SendMessage MessageData

fun set_state :: "effect \<Rightarrow> Home_state \<Rightarrow> Home_state" where
  "set_state (SetResponse r) s = s\<lparr>response := r\<rparr>"
| "set_state (SetError e) s = s\<lparr>error := e\<rparr>"
| "set_state (SetLoading b) s = s\<lparr>loading := b\<rparr>"
| "set_state (SetFormData d) s = s\<lparr>formData := d\<rparr>"
| "set_state (SendMessage m) s = s"

definition run_effects :: "effect list \<Rightarrow> Home_state \<Rightarrow> Home_state" where
  "run_effects es s = foldl (\<lambda>t e. set_state e t) s es"

fun sent_messages :: "effect list \<Rightarrow> MessageData list" where
  "sent_messages [] = []"
| "sent_messages (SendMessage m # es) = m # sent_messages es"
| "sent_messages (_ # es) = sent_messages es"

text \<open>
  Where \<open>handleProcessing\<close> is suspended: at \<open>await formData.file.arrayBuffer()\<close>
  (line 47), holding the file and the prompt of the \<open>formData\<close> it closed over, or at
  \<open>await sendMessage(f)\<close> (line 57).
\<close>

datatype pending = AwaitArrayBuffer File string | AwaitSendMessage MessageData

text \<open>
  The \<open>catch\<close> block followed by the \<open>finally\<close> block, lines 59 to 63. The argument
  of \<open>setError\<close> is evaluated first: when the template literal throws, \<open>setError\<close> is
  not called, the \<open>finally\<close> block runs all the same, and the handler ends with the new
  exception, which nothing on the page catches.
\<close>

definition catch_finally :: "js_value \<Rightarrow> effect list" where
  "catch_finally e =
     (case template_string e of
        None \<Rightarrow> [SetLoading False]
      | Some m \<Rightarrow> [SetError (Some m), SetLoading False])"

text \<open>
  Lines 39 to 47: the synchronous part of \<open>handleProcessing\<close>, up to the early return
  (whose \<open>finally\<close> block runs before the handler returns) or to the first \<open>await\<close>.
\<close>

definition handleProcessing_begin :: "FormData \<Rightarrow> effect list \<times> pending option" where
  "handleProcessing_begin fd =
     (case file' fd of
        None \<Rightarrow>
          ([SetLoading True, SetError None, SetError (Some ''No file specified''),
            SetLoading False], None)
      | Some f \<Rightarrow>
          ([SetLoading True, SetError None], Some (AwaitArrayBuffer f (prompt fd))))"

text \<open>Lines 47 to 57: the bytes arrive, the payload is built and \<open>sendMessage\<close> is called.\<close>

definition compose :: "File \<Rightarrow> string \<Rightarrow> byte list \<Rightarrow> MessageData" where
  "compose f p bs =
     \<lparr>m_file = \<lparr>contents = base64_encode bs, m_type = type f\<rparr>, m_prompt = p\<rparr>"

definition handleProcessing_read :: "File \<Rightarrow> string \<Rightarrow> effect list \<times> pending option" where
  "handleProcessing_read f p =
     (case arrayBuffer f of
        Inl e \<Rightarrow> (catch_finally e, None)
      | Inr bs \<Rightarrow>
          ([SendMessage (compose f p bs)], Some (AwaitSendMessage (compose f p bs))))"

text \<open>Lines 57 to 63: the promise of \<open>sendMessage\<close> settles.\<close>

definition handleProcessing_settle :: "js_value + string \<Rightarrow> effect list" where
  "handleProcessing_settle outcome =
     (case outcome of
        Inl e \<Rightarrow> catch_finally e
      | Inr r \<Rightarrow> [SetResponse (Some r), SetLoading False])"

text \<open>
  One whole run of \<open>handleProcessing\<close> with nothing else happening in between.
  \<open>sendMessage\<close> lives in \<open>./vertex\<close>, so it is a parameter: the outcome of its promise
  for each payload, a rejection or the response text.
\<close>

definition handleProcessing ::
  "(MessageData \<Rightarrow> js_value + string) \<Rightarrow> FormData \<Rightarrow> effect list" where
  "handleProcessing sendMessage fd =
     (case handleProcessing_begin fd of
        (es, Some (AwaitArrayBuffer f p)) \<Rightarrow>
          (case handleProcessing_read f p of
             (es', Some (AwaitSendMessage m)) \<Rightarrow>
               es @ es' @ handleProcessing_settle (sendMessage m)
           | (es', _) \<Rightarrow> es @ es')
      | (es, _) \<Rightarrow> es)"

definition after_handleProcessing ::
  "(MessageData \<Rightarrow> js_value + string) \<Rightarrow> Home_state \<Rightarrow> Home_state" where
  "after_handleProcessing sendMessage s =
     run_effects (handleProcessing sendMessage (formData s)) s"

section \<open>The other handlers\<close>

text \<open>
  \<open>handleInputChange\<close>, lines 66 to 68, at its only call, line 107, where the field
  is \<open>"prompt"\<close> and the value is the text of the input: the spread keeps the file and
  replaces the prompt.
\<close>

definition handleInputChange_prompt :: "string \<Rightarrow> FormData \<Rightarrow> effect list" where
  "handleInputChange_prompt v fd = [SetFormData (fd\<lparr>prompt := v\<rparr>)]"

text \<open>
  \<open>handleFileChange\<close>, lines 70 to 74. The argument is \<open>null\<close> or a \<open>FileList\<close>;
  \<open>files[0]\<close> of an empty list is \<open>undefined\<close>, which every test of the page
  (\<open>!formData.file\<close>, \<open>formData.file &&\<close>) treats as it treats \<open>null\<close>.
\<close>

definition handleFileChange :: "File list option \<Rightarrow> FormData \<Rightarrow> effect list" where
  "handleFileChange files fd =
     (case files of
        None \<Rightarrow> []
      | Some fs \<Rightarrow>
          [SetFormData (fd\<lparr>file' := (case fs of [] \<Rightarrow> None | f # _ \<Rightarrow> Some f)\<rparr>)])"

text \<open>The \<open>onDrop\<close> handler of the drop zone, lines 141 to 149.\<close>

definition onDrop :: "bool \<Rightarrow> File list \<Rightarrow> FormData \<Rightarrow> effect list" where
  "onDrop is_loading files fd =
     (if is_loading then []
      else if 0 < length files then handleFileChange (Some files) fd
      else [])"

text \<open>The \<open>onClick\<close> handler of the Clear button, line 206.\<close>

definition onClick_Clear :: "effect list" where
  "onClick_Clear = [SetFormData \<lparr>file' = None, prompt = ''''\<rparr>]"

section \<open>The rendered page\<close>

text \<open>
  What the JSX of lines 76 to 226 shows of the state: the alert with the error, whether
  the three controls are disabled, the name of the selected file, the label of the submit
  button and the text handed to \<open>ReactMarkdown\<close>. \<open>x && (...)\<close> on a value that is
  \<open>null\<close> or a string renders its right-hand side only for a non-empty string, since
  the empty string is falsy.
\<close>

record view =
  alert :: "string option"
  prompt_disabled :: bool
  file_name :: "string option"
  file_disabled :: bool
  submit_disabled :: bool
  submit_label :: string
  markdown :: "string option"

definition and_render :: "string option \<Rightarrow> string option" where
  "and_render x = (case x of None \<Rightarrow> None | Some t \<Rightarrow> if t = [] then None else Some t)"

definition Home_view :: "Home_state \<Rightarrow> view" where
  "Home_view s =
     \<lparr>alert = and_render (error s),
      prompt_disabled = loading s,
      file_name = map_option name (file' (formData s)),
      file_disabled = loading s,
      submit_disabled = loading s,
      submit_label = (if loading s then ''Processing...'' else ''Analyze''),
      markdown = and_render (response s)\<rparr>"

section \<open>The page as a transition system\<close>

text \<open>
  The browser runs one event handler at a time and \<open>handleProcessing\<close> gives control
  back at each \<open>await\<close>, so other events can come between its parts. The state of the
  page is the component state, the text in the prompt input (the input has no \<open>value\<close>
  attribute, so the browser owns its text and only \<open>onChange\<close> copies it into
  \<open>formData\<close>), the suspended runs of \<open>handleProcessing\<close>, and the log of the
  payloads passed to \<open>sendMessage\<close>.
\<close>

record app =
  ui :: Home_state
  prompt_input :: string
  inflight :: "pending list"
  sent :: "MessageData list"

definition initial_app :: app where
  "initial_app = \<lparr>ui = initial_state, prompt_input = '''', inflight = [], sent = []\<rparr>"

definition perform :: "effect list \<Rightarrow> app \<Rightarrow> app" where
  "perform es a = a\<lparr>ui := run_effects es (ui a), sent := sent a @ sent_messages es\<rparr>"

text \<open>
  The events: the user edits the prompt, chooses files in the file dialog, drops files on
  the drop zone, presses Clear, submits the form; the promise of \<open>arrayBuffer()\<close> or of
  \<open>sendMessage\<close> of the \<open>n\<close>-th suspended run settles.
\<close>

datatype event =
    Type string
  | Choose "File list option"
  | Drop "File list"
  | Clear
  | Submit
  | ArrayBufferSettles nat
  | SendMessageSettles nat "js_value + string"

definition resume :: "nat \<Rightarrow> pending option \<Rightarrow> pending list \<Rightarrow> pending list" where
  "resume n p ps = take n ps @ (case p of None \<Rightarrow> [] | Some q \<Rightarrow> [q]) @ drop (Suc n) ps"

text \<open>
  One event; \<open>None\<close> when the page does not let it happen. A disabled control takes no
  input, and the browser submits the form only through an enabled submit button or prompt
  input (both are disabled together) and only when the \<open>required\<close> prompt input holds
  some text.
\<close>

fun step :: "event \<Rightarrow> app \<Rightarrow> app option" where
  "step (Type v) a =
     (if prompt_disabled (Home_view (ui a)) then None
      else Some ((perform (handleInputChange_prompt v (formData (ui a))) a)
                   \<lparr>prompt_input := v\<rparr>))"
| "step (Choose files) a =
     (if file_disabled (Home_view (ui a)) then None
      else Some (perform (handleFileChange files (formData (ui a))) a))"
| "step (Drop files) a =
     Some (perform (onDrop (loading (ui a)) files (formData (ui a))) a)"
| "step Clear a = Some (perform onClick_Clear a)"
| "step Submit a =
     (if submit_disabled (Home_view (ui a)) \<or> prompt_input a = [] then None
      else (case handleProcessing_begin (formData (ui a)) of
              (es, p) \<Rightarrow>
                Some ((perform es a)
                        \<lparr>inflight := resume (length (inflight a)) p (inflight a)\<rparr>)))"
| "step (ArrayBufferSettles n) a =
     (if n < length (inflight a) then
        (case inflight a ! n of
           AwaitArrayBuffer f p \<Rightarrow>
             (case handleProcessing_read f p of
                (es, q) \<Rightarrow> Some ((perform es a)\<lparr>inflight := resume n q (inflight a)\<rparr>))
         | AwaitSendMessage m \<Rightarrow> None)
      else None)"
| "step (SendMessageSettles n outcome) a =
     (if n < length (inflight a) then
        (case inflight a ! n of
           AwaitSendMessage m \<Rightarrow>
             Some ((perform (handleProcessing_settle outcome) a)
                     \<lparr>inflight := resume n None (inflight a)\<rparr>)
         | AwaitArrayBuffer f p \<Rightarrow> None)
      else None)"

fun run :: "event list \<Rightarrow> app \<Rightarrow> app option" where
  "run [] a = Some a"
| "run (e # es) a = (case step e a of None \<Rightarrow> None | Some a' \<Rightarrow> run es a')"

inductive reachable :: "app \<Rightarrow> bool" where
  start: "reachable initial_app"
| after: "reachable a \<Longrightarrow> step e a = Some a' \<Longrightarrow> reachable a'"

subsection \<open>The response state of the specification\<close>

text \<open>
  The specification reads the three cells \<open>response\<close>, \<open>error\<close> and \<open>loading\<close> as one
  value among Idle, Loading, Success(text) and Failure(message). \<open>active\<close> lists the
  values that the cells encode: Loading for a true \<open>loading\<close>, Success for a non-null
  \<open>response\<close>, Failure for a non-null \<open>error\<close>, and Idle when none of these holds.
\<close>

datatype ResponseState = Idle | Loading | Success string | Failure string

definition active :: "Home_state \<Rightarrow> ResponseState list" where
  "active s =
     (let xs = (if loading s then [Loading] else [])
             @ (case response s of None \<Rightarrow> [] | Some t \<Rightarrow> [Success t])
             @ (case error s of None \<Rightarrow> [] | Some m \<Rightarrow> [Failure m])
      in if xs = [] then [Idle] else xs)"

subsection \<open>Example values\<close>

definition label_jpg :: File where
  "label_jpg =
     \<lparr>name = ''label.jpg'', type = ''image/jpeg'',
      arrayBuffer = Inr [0x4A, 0x50, 0x47, 0x21]\<rparr>"

definition picked_state :: Home_state where
  "picked_state =
     \<lparr>response = None, error = None, loading = False,
      formData = \<lparr>file' = Some label_jpg, prompt = ''Is this good for me?''\<rparr>\<rparr>"

definition stale_state :: Home_state where
  "stale_state =
     \<lparr>response = Some ''ok'', error = Some ''Error: offline'', loading = False,
      formData = \<lparr>file' = None, prompt = ''q''\<rparr>\<rparr>"

text \<open>
  A submission that succeeds, and one that fails: the user types a prompt, chooses the
  file and submits; the bytes arrive, and the call resolves with a text or rejects.
\<close>

definition success_trace :: "event list" where
  "success_trace =
     [Type ''q'', Choose (Some [label_jpg]), Submit, ArrayBufferSettles 0,
      SendMessageSettles 0 (Inr ''ok'')]"

definition failure_trace :: "event list" where
  "failure_trace =
     [Type ''q'', Choose (Some [label_jpg]), Submit, ArrayBufferSettles 0,
      SendMessageSettles 0 (Inl (JSError ''Error'' ''offline''))]"

text \<open>The page after the failed submission has been submitted again.\<close>

definition retry_app :: app where
  "retry_app =
     \<lparr>ui = \<lparr>response = None, error = None, loading = True,
            formData = \<lparr>file' = Some label_jpg, prompt = ''q''\<rparr>\<rparr>,
      prompt_input = ''q'', inflight = [AwaitArrayBuffer label_jpg ''q''],
      sent = [compose label_jpg ''q'' [0x4A, 0x50, 0x47, 0x21]]\<rparr>"

text \<open>The page after the successful submission has been submitted again.\<close>

definition resubmit_app :: app where
  "resubmit_app =
     \<lparr>ui = \<lparr>response = Some ''ok'', error = None, loading = True,
            formData = \<lparr>file' = Some label_jpg, prompt = ''q''\<rparr>\<rparr>,
      prompt_input = ''q'', inflight = [AwaitArrayBuffer label_jpg ''q''],
      sent = [compose label_jpg ''q'' [0x4A, 0x50, 0x47, 0x21]]\<rparr>"

subsection \<open>The invariant of the loading flag\<close>

text \<open>
  At most one run of \<open>handleProcessing\<close> is suspended, \<open>loading\<close> is true exactly while
  one is, and no error message is set while \<open>loading\<close> is true.
\<close>

definition single_flight :: "app \<Rightarrow> bool" where
  "single_flight a \<longleftrightarrow>
     length (inflight a) \<le> 1 \<and> (loading (ui a) \<longleftrightarrow> inflight a \<noteq> [])
     \<and> (loading (ui a) \<longrightarrow> error (ui a) = None)"

section \<open>Base64 is lossless\<close>

lemma base64_alphabet_length: "length base64_alphabet = 64"
  by (simp add: base64_alphabet_def)

lemma base64_alphabet_distinct: "distinct base64_alphabet"
  by (simp add: base64_alphabet_def)

lemma base64_value_char: "i < 64 \<Longrightarrow> base64_value (base64_char i) = Some i"
proof -
  assume i: "i < 64"
  have len: "length base64_alphabet = length [0..<64::nat]"
    by (simp add: base64_alphabet_length)
  have il: "i < length [0..<64::nat]" using i by simp
  have "map_of (zip base64_alphabet [0..<64]) (base64_alphabet ! i) = Some ([0..<64] ! i)"
    by (rule map_of_zip_nth [OF len base64_alphabet_distinct il])
  moreover have "[0..<64] ! i = i" using i by simp
  ultimately show ?thesis using i by (simp only: base64_value_def base64_char_def mod_less)
qed

lemma base64_char_not_pad: "base64_char i \<noteq> CHR ''=''"
proof -
  have "CHR ''='' \<notin> set base64_alphabet" by (simp add: base64_alphabet_def)
  moreover have "base64_char i \<in> set base64_alphabet"
    unfolding base64_char_def by (simp add: base64_alphabet_length)
  ultimately show ?thesis by metis
qed

text \<open>The sextets of a group are below 64, and they put the octets together again.\<close>

lemma byte_lt: "unat (a::byte) < 256"
  using unsigned_less [of a] by simp

lemma div16_lt: "b < 256 \<Longrightarrow> (b::nat) div 16 < 16"
  by simp

lemma div64_lt: "c < 256 \<Longrightarrow> (c::nat) div 64 < 4"
  by simp

lemma sextet0_lt: "a < 256 \<Longrightarrow> a div 4 < (64::nat)"
  by simp

lemma sextet1_pad_lt: "(a mod 4) * 16 < (64::nat)"
  using mod_less_divisor [of 4 a] by linarith

lemma sextet1_lt: "b < 256 \<Longrightarrow> (a mod 4) * 16 + b div 16 < (64::nat)"
  using mod_less_divisor [of 4 a] div16_lt [of b] by linarith

lemma sextet2_pad_lt: "(b mod 16) * 4 < (64::nat)"
  using mod_less_divisor [of 16 b] by linarith

lemma sextet2_lt: "c < 256 \<Longrightarrow> (b mod 16) * 4 + c div 64 < (64::nat)"
  using mod_less_divisor [of 16 b] div64_lt [of c] by linarith

lemma octet0_pad: "(a div 4) * 4 + ((a mod 4) * 16) div 16 = (a::nat)"
  by simp

lemma octet0: "b < 256 \<Longrightarrow> (a div 4) * 4 + ((a mod 4) * 16 + b div 16) div 16 = (a::nat)"
  by (simp add: div_mult2_eq [symmetric])

lemma octet1_pad:
  "b < 256 \<Longrightarrow>
   (((a mod 4) * 16 + b div 16) mod 16) * 16 + ((b mod 16) * 4) div 4 = (b::nat)"
  using div16_lt [of b] by simp

lemma octet1:
  "b < 256 \<Longrightarrow> c < 256 \<Longrightarrow>
   (((a mod 4) * 16 + b div 16) mod 16) * 16 + ((b mod 16) * 4 + c div 64) div 4 = (b::nat)"
  using div16_lt [of b] div64_lt [of c] by (simp add: div_mult2_eq [symmetric])

lemma octet2:
  "c < 256 \<Longrightarrow> (((b mod 16) * 4 + c div 64) mod 4) * 64 + c mod 64 = (c::nat)"
  using div64_lt [of c] by simp

text \<open>The decoder on one group of characters produced by the encoder.\<close>

lemma decode_quad:
  assumes "i0 < 64" "i1 < 64" "i2 < 64" "i3 < 64"
  shows "base64_decode
           (base64_char i0 # base64_char i1 # base64_char i2 # base64_char i3 # cs) =
     (case base64_decode cs of
        Some bs \<Rightarrow>
          Some (of_nat (i0 * 4 + i1 div 16) # of_nat ((i1 mod 16) * 16 + i2 div 4) #
                of_nat ((i2 mod 4) * 64 + i3) # bs)
      | None \<Rightarrow> None)"
  using assms by (simp add: base64_value_char base64_char_not_pad)

lemma decode_pad1:
  assumes "i0 < 64" "i1 < 64" "i2 < 64"
  shows "base64_decode [base64_char i0, base64_char i1, base64_char i2, CHR ''=''] =
     Some [of_nat (i0 * 4 + i1 div 16), of_nat ((i1 mod 16) * 16 + i2 div 4)]"
  using assms by (simp add: base64_value_char base64_char_not_pad)

lemma decode_pad2:
  assumes "i0 < 64" "i1 < 64"
  shows "base64_decode [base64_char i0, base64_char i1, CHR ''='', CHR ''=''] =
     Some [of_nat (i0 * 4 + i1 div 16)]"
  using assms by (simp add: base64_value_char)

lemma base64_roundtrip: "base64_decode (base64_encode bs) = Some bs"
proof (induction bs rule: base64_encode.induct)
  case 1
  show ?case by simp
next
  case (2 a)
  have "base64_decode (base64_encode [a]) =
        Some [of_nat (unat a div 4 * 4 + (unat a mod 4 * 16) div 16)]"
    by (simp only: base64_encode.simps decode_pad2 [OF sextet0_lt [OF byte_lt] sextet1_pad_lt])
  also have "\<dots> = Some [of_nat (unat a)]"
    by (simp only: octet0_pad)
  finally show ?case by simp
next
  case (3 a b)
  have "base64_decode (base64_encode [a, b]) =
        Some [of_nat (unat a div 4 * 4 + (unat a mod 4 * 16 + unat b div 16) div 16),
              of_nat (((unat a mod 4 * 16 + unat b div 16) mod 16) * 16
                      + (unat b mod 16 * 4) div 4)]"
    by (simp only: base64_encode.simps
        decode_pad1 [OF sextet0_lt [OF byte_lt] sextet1_lt [OF byte_lt] sextet2_pad_lt])
  also have "\<dots> = Some [of_nat (unat a), of_nat (unat b)]"
    by (simp only: octet0 [OF byte_lt] octet1_pad [OF byte_lt])
  finally show ?case by simp
next
  case (4 a b c bs)
  have "base64_decode (base64_encode (a # b # c # bs)) =
        (case base64_decode (base64_encode bs) of
           Some bs' \<Rightarrow>
             Some (of_nat (unat a div 4 * 4 + (unat a mod 4 * 16 + unat b div 16) div 16) #
                   of_nat (((unat a mod 4 * 16 + unat b div 16) mod 16) * 16
                           + (unat b mod 16 * 4 + unat c div 64) div 4) #
                   of_nat (((unat b mod 16 * 4 + unat c div 64) mod 4) * 64 + unat c mod 64) #
                   bs')
         | None \<Rightarrow> None)"
    by (simp only: base64_encode.simps append_Cons append_Nil
        decode_quad [OF sextet0_lt [OF byte_lt] sextet1_lt [OF byte_lt]
          sextet2_lt [OF byte_lt] mod_less_divisor [OF zero_less_numeral]])
  also have "\<dots> = Some (of_nat (unat a) # of_nat (unat b) # of_nat (unat c) # bs)"
    by (simp only: "4.IH" option.case octet0 [OF byte_lt] octet1 [OF byte_lt byte_lt]
        octet2 [OF byte_lt])
  finally show ?case by simp
qed

text \<open>The four bytes \<open>JPG!\<close> encode as they do in Node.\<close>

lemma base64_encode_example: "base64_encode [0x4A, 0x50, 0x47, 0x21] = ''SlBHIQ==''"
  by (simp add: base64_char_def base64_alphabet_def)

section \<open>Effects and runs\<close>

lemma run_effects_Nil: "run_effects [] s = s"
  by (simp add: run_effects_def)

lemma run_effects_Cons: "run_effects (e # es) s = run_effects es (set_state e s)"
  by (simp add: run_effects_def)

lemma run_effects_append: "run_effects (es @ es') s = run_effects es' (run_effects es s)"
  by (simp add: run_effects_def)

lemmas run_effects_simps = run_effects_Nil run_effects_Cons run_effects_append

lemmas handler_defs =
  after_handleProcessing_def handleProcessing_def handleProcessing_begin_def
  handleProcessing_read_def handleProcessing_settle_def catch_finally_def

lemmas step_defs =
  Home_view_def perform_def handleInputChange_prompt_def handleFileChange_def onDrop_def
  onClick_Clear_def handleProcessing_begin_def handleProcessing_read_def
  handleProcessing_settle_def catch_finally_def resume_def initial_app_def initial_state_def

lemma m_prompt_compose: "m_prompt (compose f p bs) = p"
  by (simp add: compose_def)

lemma contents_compose: "contents (m_file (compose f p bs)) = base64_encode bs"
  by (simp add: compose_def)

lemma reachable_run: "reachable a \<Longrightarrow> run es a = Some a' \<Longrightarrow> reachable a'"
proof (induction es arbitrary: a)
  case Nil
  then show ?case by simp
next
  case (Cons e es)
  then show ?case
    by (auto split: option.splits intro: reachable.after)
qed

lemma run_success_trace:
  "run success_trace initial_app =
     Some \<lparr>ui = \<lparr>response = Some ''ok'', error = None, loading = False,
                 formData = \<lparr>file' = Some label_jpg, prompt = ''q''\<rparr>\<rparr>,
           prompt_input = ''q'', inflight = [],
           sent = [compose label_jpg ''q'' [0x4A, 0x50, 0x47, 0x21]]\<rparr>"
  by (simp add: success_trace_def step_defs run_effects_simps label_jpg_def)

lemma run_retry: "run (failure_trace @ [Submit]) initial_app = Some retry_app"
  by (simp add: failure_trace_def retry_app_def step_defs run_effects_simps label_jpg_def)

lemma reachable_retry_app: "reachable retry_app"
  by (rule reachable_run [OF reachable.start run_retry])

subsection \<open>Every event keeps the invariant\<close>

lemma single_flight_initial: "single_flight initial_app"
  by (simp add: single_flight_def initial_app_def initial_state_def)

lemma single_flight_step:
  assumes "single_flight a" "step e a = Some a'"
  shows "single_flight a'"
proof (cases e)
  case (Type v)
  with assms show ?thesis
    by (auto simp: single_flight_def Home_view_def perform_def handleInputChange_prompt_def
        run_effects_simps split: if_splits)
next
  case (Choose files)
  with assms show ?thesis
    by (auto simp: single_flight_def Home_view_def perform_def handleFileChange_def
        run_effects_simps split: if_splits option.splits)
next
  case (Drop files)
  with assms show ?thesis
    by (auto simp: single_flight_def perform_def onDrop_def handleFileChange_def
        run_effects_simps split: if_splits option.splits)
next
  case Clear
  with assms show ?thesis
    by (auto simp: single_flight_def perform_def onClick_Clear_def run_effects_simps)
next
  case Submit
  with assms show ?thesis
    by (auto simp: single_flight_def Home_view_def perform_def handleProcessing_begin_def
        resume_def run_effects_simps split: if_splits option.splits)
next
  case (ArrayBufferSettles n)
  with assms show ?thesis
    by (auto simp: single_flight_def perform_def handleProcessing_read_def catch_finally_def
        resume_def run_effects_simps split: if_splits option.splits pending.splits sum.splits)
next
  case (SendMessageSettles n outcome)
  with assms show ?thesis
    by (auto simp: single_flight_def perform_def handleProcessing_settle_def catch_finally_def
        resume_def run_effects_simps split: if_splits option.splits pending.splits sum.splits)
qed

lemma reachable_single_flight: "reachable a \<Longrightarrow> single_flight a"
  by (induction rule: reachable.induct) (auto intro: single_flight_initial single_flight_step)

text \<open>
  The two settlements of a suspended run, with whatever events came before them: a
  rejection leaves its text in \<open>error\<close> (or leaves \<open>error\<close> as it is when it has no
  text), a response text goes to \<open>response\<close>, and both put \<open>loading\<close> back to false.
\<close>

lemma settle_rejected:
  assumes "step (SendMessageSettles n (Inl e)) a = Some a'"
  shows "error (ui a') = (case template_string e of None \<Rightarrow> error (ui a) | Some m \<Rightarrow> Some m)
       \<and> \<not> loading (ui a') \<and> response (ui a') = response (ui a)"
  using assms
  by (auto simp: perform_def handleProcessing_settle_def catch_finally_def run_effects_simps
      split: if_splits pending.splits option.splits)

text \<open>
  No event sets a response text back to \<open>null\<close>, and an error message goes away only
  with a submission.
\<close>

lemma response_kept:
  assumes "step e a = Some a'" and "response (ui a) \<noteq> None"
  shows "response (ui a') \<noteq> None"
proof (cases e)
  case (Type v)
  with assms show ?thesis
    by (auto simp: Home_view_def perform_def handleInputChange_prompt_def run_effects_simps
        split: if_splits)
next
  case (Choose files)
  with assms show ?thesis
    by (auto simp: Home_view_def perform_def handleFileChange_def run_effects_simps
        split: if_splits option.splits)
next
  case (Drop files)
  with assms show ?thesis
    by (auto simp: perform_def onDrop_def handleFileChange_def run_effects_simps
        split: if_splits)
next
  case Clear
  with assms show ?thesis
    by (auto simp: perform_def onClick_Clear_def run_effects_simps)
next
  case Submit
  with assms show ?thesis
    by (auto simp: Home_view_def perform_def handleProcessing_begin_def run_effects_simps
        split: if_splits option.splits)
next
  case (ArrayBufferSettles n)
  with assms show ?thesis
    by (auto simp: perform_def handleProcessing_read_def catch_finally_def run_effects_simps
        split: if_splits option.splits pending.splits sum.splits)
next
  case (SendMessageSettles n outcome)
  with assms show ?thesis
    by (auto simp: perform_def handleProcessing_settle_def catch_finally_def run_effects_simps
        split: if_splits option.splits pending.splits sum.splits)
qed

lemma error_cleared_by_submit_only:
  assumes "step e a = Some a'" and "error (ui a) \<noteq> None" and "error (ui a') = None"
  shows "e = Submit"
proof (cases e)
  case (Type v)
  with assms show ?thesis
    by (auto simp: Home_view_def perform_def handleInputChange_prompt_def run_effects_simps
        split: if_splits)
next
  case (Choose files)
  with assms show ?thesis
    by (auto simp: Home_view_def perform_def handleFileChange_def run_effects_simps
        split: if_splits option.splits)
next
  case (Drop files)
  with assms show ?thesis
    by (auto simp: perform_def onDrop_def handleFileChange_def run_effects_simps
        split: if_splits)
next
  case Clear
  with assms show ?thesis
    by (auto simp: perform_def onClick_Clear_def run_effects_simps)
next
  case Submit
  then show ?thesis by simp
next
  case (ArrayBufferSettles n)
  with assms show ?thesis
    by (auto simp: perform_def handleProcessing_read_def catch_finally_def run_effects_simps
        split: if_splits option.splits pending.splits sum.splits)
next
  case (SendMessageSettles n outcome)
  with assms show ?thesis
    by (auto simp: perform_def handleProcessing_settle_def catch_finally_def run_effects_simps
        split: if_splits option.splits pending.splits sum.splits)
qed

lemma run_resubmit: "run (success_trace @ [Submit]) initial_app = Some resubmit_app"
  by (simp add: success_trace_def resubmit_app_def step_defs run_effects_simps label_jpg_def)

lemma reachable_resubmit_app: "reachable resubmit_app"
  by (rule reachable_run [OF reachable.start run_resubmit])

lemma settle_resolved:
  assumes "step (SendMessageSettles n (Inr r)) a = Some a'"
  shows "response (ui a') = Some r \<and> \<not> loading (ui a') \<and> error (ui a') = error (ui a)"
  using assms
  by (auto simp: perform_def handleProcessing_settle_def run_effects_simps
      split: if_splits pending.splits)

text \<open>
  One run of \<open>handleProcessing\<close> is what the transition system does from a state in
  which the form can be submitted, when nothing comes between the parts of the handler.
\<close>

lemma handleProcessing_as_events:
  assumes "\<not> loading (ui a)" and "prompt_input a \<noteq> []" and "inflight a = []"
  shows "\<exists>evs a'. run evs a = Some a'
           \<and> ui a' = after_handleProcessing sendMessage (ui a)
           \<and> sent a' =
               sent a @ sent_messages (handleProcessing sendMessage (formData (ui a)))
           \<and> inflight a' = []"
proof (cases "file' (formData (ui a))")
  case None
  with assms
  have "run [Submit] a = Some (perform (handleProcessing sendMessage (formData (ui a))) a)"
    by (simp add: handleProcessing_def step_defs)
  with assms show ?thesis
    by (intro exI [of _ "[Submit]"]
        exI [of _ "perform (handleProcessing sendMessage (formData (ui a))) a"])
       (simp add: perform_def after_handleProcessing_def)
next
  case (Some f)
  show ?thesis
  proof (cases "arrayBuffer f")
    case (Inl e)
    with Some assms
    have "run [Submit, ArrayBufferSettles 0] a
          = Some (perform (handleProcessing sendMessage (formData (ui a))) a)"
      by (simp add: handleProcessing_def step_defs run_effects_simps)
    with assms show ?thesis
      by (intro exI [of _ "[Submit, ArrayBufferSettles 0]"]
          exI [of _ "perform (handleProcessing sendMessage (formData (ui a))) a"])
         (simp add: perform_def after_handleProcessing_def)
  next
    case (Inr bs)
    with Some assms
    have "run [Submit, ArrayBufferSettles 0,
               SendMessageSettles 0 (sendMessage (compose f (prompt (formData (ui a))) bs))] a
          = Some (perform (handleProcessing sendMessage (formData (ui a))) a)"
      by (simp add: handleProcessing_def step_defs run_effects_simps)
    with assms show ?thesis
      by (intro exI [of _ "[Submit, ArrayBufferSettles 0,
               SendMessageSettles 0 (sendMessage (compose f (prompt (formData (ui a))) bs))]"]
          exI [of _ "perform (handleProcessing sendMessage (formData (ui a))) a"])
         (simp add: perform_def after_handleProcessing_def)
  qed
qed

lemma alert_shows_error:
  "alert (Home_view s) = (case error s of None \<Rightarrow> None
                           | Some m \<Rightarrow> if m = [] then None else Some m)"
  by (simp add: Home_view_def and_render_def)

section \<open>Properties of the submit handler\<close>

text \<open>
  Claim C1. A submission with no file selected (\<open>formData.file\<close> is \<open>null\<close>) never
  calls \<open>sendMessage\<close>, and leaves the error state at exactly \<open>No file specified\<close>.
\<close>

theorem no_file_no_call:
  assumes "file' (formData s) = None"
  shows "sent_messages (handleProcessing sendMessage (formData s)) = []
       \<and> error (after_handleProcessing sendMessage s) = Some ''No file specified''"
  using assms
  by (simp add: after_handleProcessing_def handleProcessing_def handleProcessing_begin_def
      run_effects_def)

theorem no_file_no_call_witness:
  "file' (formData initial_state) = None
   \<and> sent_messages (handleProcessing (\<lambda>m. Inr ''ok'') (formData initial_state)) = []
   \<and> error (after_handleProcessing (\<lambda>m. Inr ''ok'') initial_state)
       = Some ''No file specified''"
  using no_file_no_call [of initial_state "\<lambda>m. Inr ''ok''"]
  by (simp add: initial_state_def)

text \<open>
  Claim C10. On the path with no file the handler calls, in this order, \<open>setLoading(true)\<close>,
  \<open>setError(null)\<close>, \<open>setError("No file specified")\<close> and, from the \<open>finally\<close> block
  that runs on the early return, \<open>setLoading(false)\<close>, and nothing else. So the form data
  and the response are as they were (a response text shown before stays beside the new
  error), an earlier error message is cleared before the new one is set, and \<open>loading\<close>
  is false when the handler returns.
\<close>

theorem no_file_frame:
  assumes "file' (formData s) = None"
  shows "handleProcessing sendMessage (formData s) =
           [SetLoading True, SetError None, SetError (Some ''No file specified''),
            SetLoading False]
       \<and> formData (after_handleProcessing sendMessage s) = formData s
       \<and> response (after_handleProcessing sendMessage s) = response s
       \<and> error (after_handleProcessing sendMessage s) = Some ''No file specified''
       \<and> \<not> loading (after_handleProcessing sendMessage s)"
  using assms by (simp add: handler_defs run_effects_simps)

theorem no_file_frame_witness:
  "file' (formData stale_state) = None
   \<and> handleProcessing (\<lambda>m. Inr ''new'') (formData stale_state) =
       [SetLoading True, SetError None, SetError (Some ''No file specified''),
        SetLoading False]
   \<and> formData (after_handleProcessing (\<lambda>m. Inr ''new'') stale_state) = formData stale_state
   \<and> response (after_handleProcessing (\<lambda>m. Inr ''new'') stale_state) = Some ''ok''
   \<and> error (after_handleProcessing (\<lambda>m. Inr ''new'') stale_state)
       = Some ''No file specified''
   \<and> \<not> loading (after_handleProcessing (\<lambda>m. Inr ''new'') stale_state)"
  using no_file_frame [of stale_state "\<lambda>m. Inr ''new''"]
  by (simp add: stale_state_def)

text \<open>
  Claim C4. \<open>sendMessage\<close> is to be reached only with a file present and a non-empty
  \<open>formData.prompt\<close>. The page breaks the second half. \<open>handleProcessing\<close> tests the
  file and leaves the prompt to the \<open>required\<close> attribute of line 105, which makes the
  browser test the text in the prompt input, not \<open>formData.prompt\<close>; and Clear empties
  \<open>formData.prompt\<close> while the text stays in the input. The user types a prompt, presses
  Clear, chooses a file and submits: \<open>sendMessage\<close> is called with an empty prompt.
\<close>

theorem empty_prompt_is_sent:
  "map_option (\<lambda>a. map m_prompt (sent a))
     (run [Type ''q'', Clear, Choose (Some [label_jpg]), Submit, ArrayBufferSettles 0]
        initial_app)
     = Some ['''']"
  by (simp add: step_defs run_effects_simps label_jpg_def m_prompt_compose)

text \<open>
  What the handler does guarantee by itself: every run of \<open>handleProcessing\<close> that
  reaches \<open>sendMessage\<close> has a file selected (\<open>formData.file\<close> is not \<open>null\<close>), and
  the prompt it sends is \<open>formData.prompt\<close> as it is.
\<close>

lemma call_needs_file:
  assumes "m \<in> set (sent_messages (handleProcessing sendMessage fd))"
  shows "file' fd \<noteq> None \<and> m_prompt m = prompt fd"
  using assms
  by (auto simp: handler_defs m_prompt_compose split: option.splits sum.splits)

lemma call_needs_file_example:
  "compose label_jpg ''Is this good for me?'' [0x4A, 0x50, 0x47, 0x21]
     \<in> set (sent_messages (handleProcessing (\<lambda>m. Inr ''ok'') (formData picked_state)))
   \<and> file' (formData picked_state) \<noteq> None
   \<and> m_prompt (compose label_jpg ''Is this good for me?'' [0x4A, 0x50, 0x47, 0x21])
       = prompt (formData picked_state)"
proof -
  have h: "compose label_jpg ''Is this good for me?'' [0x4A, 0x50, 0x47, 0x21]
     \<in> set (sent_messages (handleProcessing (\<lambda>m. Inr ''ok'') (formData picked_state)))"
    by (simp add: handler_defs picked_state_def label_jpg_def)
  from call_needs_file [OF h] h show ?thesis by simp
qed

text \<open>
  Claim C5. For a selected file whose bytes are \<open>bs\<close>, the \<open>contents\<close> field of the
  payload passed to \<open>sendMessage\<close> decodes from base64 to exactly \<open>bs\<close>, and there is
  one such payload.
\<close>

theorem payload_decodes_to_file_bytes:
  assumes "file' fd = Some f" and "arrayBuffer f = Inr bs"
  shows "map (\<lambda>m. base64_decode (contents (m_file m)))
           (sent_messages (handleProcessing sendMessage fd)) = [Some bs]"
  using assms
  by (simp add: handler_defs contents_compose base64_roundtrip split: sum.splits option.splits)

theorem payload_decodes_to_file_bytes_witness:
  "file' (formData picked_state) = Some label_jpg
   \<and> arrayBuffer label_jpg = Inr [0x4A, 0x50, 0x47, 0x21]
   \<and> map (\<lambda>m. base64_decode (contents (m_file m)))
        (sent_messages (handleProcessing (\<lambda>m. Inr ''ok'') (formData picked_state)))
       = [Some [0x4A, 0x50, 0x47, 0x21]]"
proof -
  have f: "file' (formData picked_state) = Some label_jpg"
    by (simp add: picked_state_def)
  have b: "arrayBuffer label_jpg = Inr [0x4A, 0x50, 0x47, 0x21]"
    by (simp add: label_jpg_def)
  from payload_decodes_to_file_bytes [OF f b, of "\<lambda>m. Inr ''ok''"] f b
  show ?thesis by simp
qed

text \<open>
  Claim C6 as stated does not hold for every \<open>E\<close>. When \<open>sendMessage\<close> rejects with the
  empty string, the error cell is \<open>""\<close>, which \<open>error && (...)\<close> of line 84 takes as
  false, so no alert is displayed. When it rejects with a \<open>Symbol\<close>, the template literal
  of line 60 throws, \<open>setError\<close> is not called and the error cell stays \<open>null\<close>.
\<close>

theorem rejection_not_displayed:
  "error (after_handleProcessing (\<lambda>m. Inl (JSString '''')) picked_state) = Some ''''
   \<and> alert (Home_view (after_handleProcessing (\<lambda>m. Inl (JSString '''')) picked_state)) = None
   \<and> error (after_handleProcessing (\<lambda>m. Inl JSSymbol) picked_state) = None
   \<and> alert (Home_view (after_handleProcessing (\<lambda>m. Inl JSSymbol) picked_state)) = None"
  by (simp add: handler_defs picked_state_def label_jpg_def run_effects_simps Home_view_def
      and_render_def)

text \<open>
  Claim C6, amended. When the call of \<open>sendMessage\<close> rejects with \<open>E\<close>, \<open>loading\<close> is
  false once the handler has finished. When the template string \<open>`${E}`\<close> is a text, the
  error cell is exactly that text, and the alert displays exactly that text when it is not
  empty and is not rendered when it is empty. When the template string throws, the error
  cell is \<open>null\<close> and no alert is rendered.
\<close>

theorem rejection_sets_error:
  assumes "file' (formData s) = Some f" and "arrayBuffer f = Inr bs"
    and "sendMessage (compose f (prompt (formData s)) bs) = Inl E"
  shows "\<not> loading (after_handleProcessing sendMessage s)
       \<and> (case template_string E of
            Some m \<Rightarrow>
              error (after_handleProcessing sendMessage s) = Some m
              \<and> alert (Home_view (after_handleProcessing sendMessage s))
                  = (if m = [] then None else Some m)
          | None \<Rightarrow>
              error (after_handleProcessing sendMessage s) = None
              \<and> alert (Home_view (after_handleProcessing sendMessage s)) = None)"
  using assms
  by (simp add: handler_defs run_effects_simps Home_view_def and_render_def
      split: option.splits)

theorem rejection_sets_error_witness:
  "file' (formData picked_state) = Some label_jpg
   \<and> arrayBuffer label_jpg = Inr [0x4A, 0x50, 0x47, 0x21]
   \<and> (\<lambda>m. Inl (JSError ''Error'' ''offline''))
        (compose label_jpg (prompt (formData picked_state)) [0x4A, 0x50, 0x47, 0x21])
       = (Inl (JSError ''Error'' ''offline'') :: js_value + string)
   \<and> error (after_handleProcessing (\<lambda>m. Inl (JSError ''Error'' ''offline'')) picked_state)
       = Some ''Error: offline''
   \<and> alert (Home_view
        (after_handleProcessing (\<lambda>m. Inl (JSError ''Error'' ''offline'')) picked_state))
       = Some ''Error: offline''
   \<and> \<not> loading (after_handleProcessing (\<lambda>m. Inl (JSError ''Error'' ''offline''))
                  picked_state)"
proof -
  have f: "file' (formData picked_state) = Some label_jpg"
    by (simp add: picked_state_def)
  have b: "arrayBuffer label_jpg = Inr [0x4A, 0x50, 0x47, 0x21]"
    by (simp add: label_jpg_def)
  have r: "(\<lambda>m. Inl (JSError ''Error'' ''offline''))
             (compose label_jpg (prompt (formData picked_state)) [0x4A, 0x50, 0x47, 0x21])
           = (Inl (JSError ''Error'' ''offline'') :: js_value + string)"
    by simp
  from rejection_sets_error [OF f b r] f b show ?thesis by simp
qed

text \<open>
  Claim C7 as stated does not hold for the empty text: when \<open>sendMessage\<close> resolves with
  \<open>""\<close> the response state is \<open>""\<close>, which \<open>response && (...)\<close> of line 213 takes as
  false, so the output block with \<open>ReactMarkdown\<close> is not rendered.
\<close>

theorem empty_response_not_rendered:
  "file' (formData picked_state) = Some label_jpg
   \<and> response (after_handleProcessing (\<lambda>m. Inr '''') picked_state) = Some ''''
   \<and> markdown (Home_view (after_handleProcessing (\<lambda>m. Inr '''') picked_state)) = None"
  by (simp add: handler_defs picked_state_def label_jpg_def run_effects_simps Home_view_def
      and_render_def)

text \<open>
  Claim C7, amended. When the call of \<open>sendMessage\<close> resolves with the text \<open>T\<close>, the
  response state is set to exactly \<open>T\<close>; the page hands exactly \<open>T\<close> to the markdown
  renderer when \<open>T\<close> is not empty, and renders no output block when \<open>T\<close> is empty.
  The text is not validated or changed on the way.
\<close>

theorem resolution_sets_response:
  assumes "file' (formData s) = Some f" and "arrayBuffer f = Inr bs"
    and "sendMessage (compose f (prompt (formData s)) bs) = Inr T"
  shows "response (after_handleProcessing sendMessage s) = Some T
       \<and> markdown (Home_view (after_handleProcessing sendMessage s))
           = (if T = [] then None else Some T)"
  using assms by (simp add: handler_defs run_effects_simps Home_view_def and_render_def)

theorem resolution_sets_response_witness:
  "file' (formData picked_state) = Some label_jpg
   \<and> arrayBuffer label_jpg = Inr [0x4A, 0x50, 0x47, 0x21]
   \<and> (\<lambda>m. Inr ''# Sugar'')
        (compose label_jpg (prompt (formData picked_state)) [0x4A, 0x50, 0x47, 0x21])
       = (Inr ''# Sugar'' :: js_value + string)
   \<and> response (after_handleProcessing (\<lambda>m. Inr ''# Sugar'') picked_state) = Some ''# Sugar''
   \<and> markdown (Home_view (after_handleProcessing (\<lambda>m. Inr ''# Sugar'') picked_state))
       = Some ''# Sugar''"
proof -
  have f: "file' (formData picked_state) = Some label_jpg"
    by (simp add: picked_state_def)
  have b: "arrayBuffer label_jpg = Inr [0x4A, 0x50, 0x47, 0x21]"
    by (simp add: label_jpg_def)
  have r: "(\<lambda>m. Inr ''# Sugar'')
             (compose label_jpg (prompt (formData picked_state)) [0x4A, 0x50, 0x47, 0x21])
           = (Inr ''# Sugar'' :: js_value + string)"
    by simp
  from resolution_sets_response [OF f b r] f b show ?thesis by simp
qed

section \<open>Properties of the Clear button\<close>

text \<open>
  Claim C8. Clear can be pressed in every state of the page, and it leaves the form state
  at an empty prompt and no file.
\<close>

theorem clear_resets_form:
  "map_option (\<lambda>a'. formData (ui a')) (step Clear a) = Some \<lparr>file' = None, prompt = ''''\<rparr>"
  by (simp add: perform_def onClick_Clear_def run_effects_simps)

text \<open>
  Claim C3 as stated does not hold: Clear calls \<open>setFormData\<close> only. After a successful
  submission followed by Clear, the response text is still there.
\<close>

theorem clear_leaves_success:
  "map_option (\<lambda>a. active (ui a)) (run (success_trace @ [Clear]) initial_app)
     = Some [Success ''ok'']"
  by (simp add: success_trace_def step_defs run_effects_simps label_jpg_def active_def)

text \<open>
  Claim C3, amended. Clear leaves \<open>response\<close>, \<open>error\<close> and \<open>loading\<close> as they are:
  a Success text or a Failure message that was active before Clear is active after it.
\<close>

theorem clear_keeps_response_state:
  "response (run_effects onClick_Clear s) = response s
   \<and> error (run_effects onClick_Clear s) = error s
   \<and> loading (run_effects onClick_Clear s) = loading s
   \<and> active (run_effects onClick_Clear s) = active s"
  by (simp add: onClick_Clear_def run_effects_simps active_def)

section \<open>Properties of the reachable states\<close>

text \<open>
  Claim C2 as stated does not hold: no handler ever sets \<open>response\<close> back to \<open>null\<close>.
  After a successful submission, Clear and a second submission (now without a file) leave
  a response text and an error message side by side.
\<close>

theorem success_and_failure_together:
  "map_option (\<lambda>a. active (ui a)) (run (success_trace @ [Clear, Submit]) initial_app)
     = Some [Success ''ok'', Failure ''No file specified'']"
  by (simp add: success_trace_def step_defs run_effects_simps label_jpg_def active_def)

text \<open>
  Claim C2, amended. \<open>response\<close>, \<open>error\<close> and \<open>loading\<close> are three cells of their own.
  In every reachable state of the page they encode one or two of the four response
  states, and the one pair that never occurs is Loading with Failure: while \<open>loading\<close> is
  true, \<open>error\<close> is \<open>null\<close>. No event sets a non-null \<open>response\<close> back to \<open>null\<close>, and
  a Success text does stand beside Loading (a submission after a success) and beside a
  Failure message (a submission without a file after a success) in reachable states.
\<close>

theorem loading_excludes_error:
  assumes "reachable a"
  shows "(loading (ui a) \<longrightarrow> error (ui a) = None)
       \<and> 1 \<le> length (active (ui a)) \<and> length (active (ui a)) \<le> 2
       \<and> (\<forall>e a'. step e a = Some a' \<longrightarrow> response (ui a) \<noteq> None
                    \<longrightarrow> response (ui a') \<noteq> None)
       \<and> map_option (\<lambda>b. active (ui b)) (run (success_trace @ [Submit]) initial_app)
           = Some [Loading, Success ''ok'']
       \<and> map_option (\<lambda>b. active (ui b)) (run (success_trace @ [Clear, Submit]) initial_app)
           = Some [Success ''ok'', Failure ''No file specified'']"
proof -
  from assms have "single_flight a" by (rule reachable_single_flight)
  then have le: "loading (ui a) \<longrightarrow> error (ui a) = None"
    by (simp add: single_flight_def)
  then have bounds: "1 \<le> length (active (ui a)) \<and> length (active (ui a)) \<le> 2"
    by (auto simp: active_def Let_def split: option.splits)
  have kept: "\<forall>e a'. step e a = Some a' \<longrightarrow> response (ui a) \<noteq> None
                \<longrightarrow> response (ui a') \<noteq> None"
    using response_kept by blast
  have beside_loading:
    "map_option (\<lambda>b. active (ui b)) (run (success_trace @ [Submit]) initial_app)
       = Some [Loading, Success ''ok'']"
    by (simp add: run_resubmit resubmit_app_def active_def)
  have beside_failure:
    "map_option (\<lambda>b. active (ui b)) (run (success_trace @ [Clear, Submit]) initial_app)
       = Some [Success ''ok'', Failure ''No file specified'']"
    by (simp add: success_trace_def step_defs run_effects_simps label_jpg_def active_def)
  from le bounds kept beside_loading beside_failure show ?thesis by blast
qed

theorem loading_excludes_error_witness:
  "reachable resubmit_app
   \<and> loading (ui resubmit_app) \<and> error (ui resubmit_app) = None
   \<and> 1 \<le> length (active (ui resubmit_app)) \<and> length (active (ui resubmit_app)) \<le> 2
   \<and> step Clear resubmit_app = Some (perform onClick_Clear resubmit_app)
   \<and> response (ui resubmit_app) \<noteq> None
   \<and> response (ui (perform onClick_Clear resubmit_app)) \<noteq> None"
proof -
  have l: "loading (ui resubmit_app)" and r: "response (ui resubmit_app) \<noteq> None"
    by (simp_all add: resubmit_app_def)
  have c: "step Clear resubmit_app = Some (perform onClick_Clear resubmit_app)"
    by simp
  from loading_excludes_error [OF reachable_resubmit_app] l r c reachable_resubmit_app
  show ?thesis by blast
qed

text \<open>
  Claim C9. In every reachable state with \<open>loading\<close> true the submit button is rendered
  with \<open>disabled\<close> true and the form cannot be submitted; \<open>loading\<close> is true whenever a
  run of \<open>handleProcessing\<close> is suspended, and at most one run is suspended, so at most
  one call of \<open>sendMessage\<close> is outstanding.
\<close>

theorem loading_disables_submit:
  assumes "reachable a"
  shows "(loading (ui a) \<longrightarrow> submit_disabled (Home_view (ui a)) \<and> step Submit a = None)
       \<and> (inflight a \<noteq> [] \<longrightarrow> loading (ui a))
       \<and> length (inflight a) \<le> 1"
proof -
  from assms have "single_flight a" by (rule reachable_single_flight)
  then show ?thesis
    by (simp add: single_flight_def Home_view_def)
qed

theorem loading_disables_submit_witness:
  "reachable retry_app
   \<and> loading (ui retry_app)
   \<and> submit_disabled (Home_view (ui retry_app)) \<and> step Submit retry_app = None
   \<and> inflight retry_app \<noteq> []
   \<and> length (inflight retry_app) \<le> 1"
proof -
  have l: "loading (ui retry_app)" and i: "inflight retry_app \<noteq> []"
    by (simp_all add: retry_app_def)
  from loading_disables_submit [OF reachable_retry_app] l i reachable_retry_app
  show ?thesis by simp
qed

end
